theory Spec2Isabelle
  imports Main
begin

section \<open>Exceptions\<close>

text \<open>
  The Python exceptions that the two source files can raise, directly or through the
  library calls they make. A computation that may raise returns \<open>error + 'a\<close>, with
  \<open>Inl\<close> for the exception.
\<close>

datatype error =
    FileNotFoundError
  | IsADirectoryError
  | PermissionError
  | NotImplementedError
  | AttributeError
  | IndexError
  | RuntimeError

definition bind_result :: "error + 'a \<Rightarrow> ('a \<Rightarrow> error + 'b) \<Rightarrow> error + 'b" where
  "bind_result r f = (case r of Inl e \<Rightarrow> Inl e | Inr x \<Rightarrow> f x)"

text \<open>A \<open>for\<close> loop over a list whose body may raise: the first exception ends the loop.\<close>

fun for_each :: "('a \<Rightarrow> 's \<Rightarrow> error + 's) \<Rightarrow> 'a list \<Rightarrow> 's \<Rightarrow> error + 's" where
  "for_each body [] s = Inr s"
| "for_each body (x # xs) s =
     (case body x s of Inl e \<Rightarrow> Inl e | Inr s' \<Rightarrow> for_each body xs s')"

section \<open>tools/data/MOSES/count\_molecules.py\<close>












section \<open>graphinvent/gnn/summation\_mpnn.py\<close>

subsection \<open>Tensors\<close>

text \<open>
  A tensor is a nested list of its entries, outermost dimension first; a tensor of the
  library is rectangular, which the theorems state as a hypothesis on the shape where
  they need it. A dimension of size zero leaves no trace of the dimensions inside it.
  Entries are whole numbers, positive or negative, as in a tensor of an integer type or
  a one-hot encoding: \<open>forward\<close> only adds entries and compares them with zero, and
  \<open>.long()\<close> is the identity on them. Entries with a fractional part are outside the
  model.
\<close>

type_synonym tensor1 = "int list"
type_synonym tensor2 = "int list list"
type_synonym tensor3 = "int list list list"
type_synonym tensor4 = "int list list list list"

text \<open>\<open>torch.sum(edges, dim=3)\<close> and \<open>adjacency.sum(-1)\<close>: the sum over the last dimension.\<close>

definition sum_dim3 :: "tensor4 \<Rightarrow> tensor3" where
  "sum_dim3 edges = map (map (map sum_list)) edges"

definition sum_last :: "tensor3 \<Rightarrow> tensor2" where
  "sum_last adjacency = map (map sum_list) adjacency"

text \<open>
  \<open>t.nonzero(as_tuple=True)\<close>: the indices of the nonzero entries in row-major order,
  one index list per dimension.
\<close>

definition nonzero3 :: "tensor3 \<Rightarrow> nat list \<times> nat list \<times> nat list" where
  "nonzero3 t =
     (let idc = [(b, n, m). b \<leftarrow> [0..<length t], n \<leftarrow> [0..<length (t ! b)],
                            m \<leftarrow> [0..<length (t ! b ! n)], t ! b ! n ! m \<noteq> 0]
      in (map fst idc, map (fst \<circ> snd) idc, map (snd \<circ> snd) idc))"

definition nonzero2 :: "tensor2 \<Rightarrow> nat list \<times> nat list" where
  "nonzero2 t =
     (let idc = [(b, n). b \<leftarrow> [0..<length t], n \<leftarrow> [0..<length (t ! b)], t ! b ! n \<noteq> 0]
      in (map fst idc, map snd idc))"

text \<open>\<open>t.view(-1).long().max()\<close>; \<open>max\<close> of a tensor without entries raises.\<close>

definition max_entry :: "tensor2 \<Rightarrow> error + int" where
  "max_entry t = (case concat t of [] \<Rightarrow> Inl RuntimeError | d # ds \<Rightarrow> Inr (fold max ds d))"

text \<open>\<open>torch.zeros(k, d, w)\<close> and \<open>torch.zeros(k, d)\<close>; a negative size raises.\<close>

definition zeros3 :: "nat \<Rightarrow> int \<Rightarrow> nat \<Rightarrow> error + tensor3" where
  "zeros3 k d w =
     (if d < 0 then Inl RuntimeError else Inr (replicate k (replicate (nat d) (replicate w 0))))"

definition zeros2 :: "nat \<Rightarrow> int \<Rightarrow> error + tensor2" where
  "zeros2 k d = (if d < 0 then Inl RuntimeError else Inr (replicate k (replicate (nat d) 0)))"

text \<open>\<open>xs[mask]\<close> for a boolean mask.\<close>

definition mask_select :: "'a list \<Rightarrow> bool list \<Rightarrow> 'a list" where
  "mask_select xs keep = map fst (filter snd (zip xs keep))"

text \<open>Reading \<open>nodes[b, n, :]\<close> and \<open>edges[b, n, m, :]\<close>; an index out of range raises.\<close>

definition getitem2 :: "'a list list \<Rightarrow> nat \<Rightarrow> nat \<Rightarrow> error + 'a" where
  "getitem2 t b n = (if b < length t \<and> n < length (t ! b) then Inr (t ! b ! n) else Inl IndexError)"

definition getitem3 :: "'a list list list \<Rightarrow> nat \<Rightarrow> nat \<Rightarrow> nat \<Rightarrow> error + 'a" where
  "getitem3 t b n m =
     (if b < length t \<and> n < length (t ! b) \<and> m < length (t ! b ! n)
      then Inr (t ! b ! n ! m) else Inl IndexError)"

text \<open>
  Writing \<open>t[i, j] = v\<close>; an index out of range raises. Writing a row, \<open>t[i, j, :] = v\<close>,
  broadcasts \<open>v\<close> to the row's width first: a row of that width is taken as it is, a row
  of one entry is repeated, any other width raises.
\<close>

definition setitem2 :: "'a list list \<Rightarrow> nat \<Rightarrow> nat \<Rightarrow> 'a \<Rightarrow> error + 'a list list" where
  "setitem2 t i j v =
     (if i < length t \<and> j < length (t ! i) then Inr (t[i := (t ! i)[j := v]]) else Inl IndexError)"

definition broadcast_row :: "nat \<Rightarrow> tensor1 \<Rightarrow> error + tensor1" where
  "broadcast_row w v =
     (if length v = w then Inr v
      else if length v = 1 then Inr (replicate w (hd v))
      else Inl RuntimeError)"

definition setitem_row :: "tensor3 \<Rightarrow> nat \<Rightarrow> nat \<Rightarrow> tensor1 \<Rightarrow> error + tensor3" where
  "setitem_row t i j v =
     (if i < length t \<and> j < length (t ! i)
      then bind_result (broadcast_row (length (t ! i ! j)) v) (setitem2 t i j)
      else Inl IndexError)"

subsection \<open>The module and its methods\<close>

text \<open>
  The namedtuple \<open>constants\<close> is not part of the sources; these are the fields that
  \<open>__init__\<close> reads. Sizes and counts are natural numbers.
\<close>

record constants_tuple =
  c_hidden_node_features :: nat
  c_n_edge_features :: nat
  c_message_size :: nat
  c_message_passes :: nat

text \<open>
  The attributes \<open>__init__\<close> sets on the instance. A subclass instance extends the
  record with attributes of its own.
\<close>

record SummationMPNN =
  hidden_node_features :: nat
  edge_features :: nat
  message_size :: nat
  message_passes :: nat
  constants :: constants_tuple

definition init :: "constants_tuple \<Rightarrow> SummationMPNN" where
  "init c =
     \<lparr> hidden_node_features = c_hidden_node_features c,
       edge_features = c_n_edge_features c,
       message_size = c_message_size c,
       message_passes = c_message_passes c,
       constants = c \<rparr>"

text \<open>
  A method call on \<open>self\<close> returns or raises, and may assign to attributes of \<open>self\<close>:
  it yields the outcome and the instance after the call.
\<close>

type_synonym ('s, 'a) outcome = "(error + 'a) \<times> 's"

text \<open>
  The class of an instance: what \<open>self.message_terms\<close>, \<open>self.update\<close>, \<open>self.readout\<close>
  and \<open>self.aggregate_message\<close> resolve to. An attribute the class does not define is
  \<open>None\<close>, and looking it up raises \<open>AttributeError\<close>.
\<close>

record ('s, 'o) methods =
  message_terms :: "'s \<Rightarrow> tensor2 \<Rightarrow> tensor3 \<Rightarrow> tensor3 \<Rightarrow> ('s, tensor2) outcome"
  update :: "'s \<Rightarrow> tensor2 \<Rightarrow> tensor2 \<Rightarrow> ('s, tensor2) outcome"
  readout :: "'s \<Rightarrow> tensor3 \<Rightarrow> tensor3 \<Rightarrow> bool list list \<Rightarrow> ('s, 'o) outcome"
  aggregate_message ::
    "('s \<Rightarrow> tensor2 \<Rightarrow> tensor3 \<Rightarrow> tensor3 \<Rightarrow> tensor2 \<Rightarrow> ('s, tensor2) outcome) option"

text \<open>The three methods as \<open>SummationMPNN\<close> defines them, and the class itself.\<close>

definition SummationMPNN_message_terms ::
  "'s \<Rightarrow> tensor2 \<Rightarrow> tensor3 \<Rightarrow> tensor3 \<Rightarrow> ('s, tensor2) outcome" where
  "SummationMPNN_message_terms self nodes node_neighbours edges = (Inl NotImplementedError, self)"

definition SummationMPNN_update :: "'s \<Rightarrow> tensor2 \<Rightarrow> tensor2 \<Rightarrow> ('s, tensor2) outcome" where
  "SummationMPNN_update self nodes messages = (Inl NotImplementedError, self)"

definition SummationMPNN_readout ::
  "'s \<Rightarrow> tensor3 \<Rightarrow> tensor3 \<Rightarrow> bool list list \<Rightarrow> ('s, 'o) outcome" where
  "SummationMPNN_readout self hidden_nodes input_nodes node_mask = (Inl NotImplementedError, self)"

definition SummationMPNN_class :: "('s, 'o) methods" where
  "SummationMPNN_class =
     \<lparr> message_terms = SummationMPNN_message_terms,
       update = SummationMPNN_update,
       readout = SummationMPNN_readout,
       aggregate_message = None \<rparr>"


subsection \<open>forward: the neighbour lists (lines 100 to 123)\<close>

text \<open>
  \<^verbatim>\<open>
  adjacency = torch.sum(edges, dim=3)
  edge_batch_batch_idc, edge_batch_node_idc, edge_batch_nghb_idc = adjacency.nonzero(as_tuple=True)
  node_batch_batch_idc, node_batch_node_idc = adjacency.sum(-1).nonzero(as_tuple=True)
  node_batch_size = node_batch_batch_idc.shape[0]
  node_degrees = adjacency.sum(dim=-1).view(-1).long()
  max_node_degree = node_degrees.max()
  node_batch_node_nghbs = torch.zeros(node_batch_size, max_node_degree, self.hidden_node_features, ...)
  node_batch_edges = torch.zeros(node_batch_size, max_node_degree, self.edge_features, ...)
  node_batch_node_nghb_mask = torch.zeros(node_batch_size, max_node_degree, ...)
  for i in range(node_batch_size):
      node_id = node_batch_node_idc[i]
      batch_id = node_batch_batch_idc[i]
      neighbors_idc = edge_batch_nghb_idc[(edge_batch_batch_idc == batch_id) & (edge_batch_node_idc == node_id)]
      for j, nghb_id in enumerate(neighbors_idc):
          node_batch_node_nghbs[i, j, :] = nodes[batch_id, nghb_id, :]
          node_batch_edges[i, j, :] = edges[batch_id, node_id, nghb_id, :]
          node_batch_node_nghb_mask[i, j] = 1
  \<close>
  The three buffers are the state of the two loops.
\<close>

record neighbour_buffers =
  node_batch_node_nghbs :: tensor3
  node_batch_edges :: tensor3
  node_batch_node_nghb_mask :: tensor2

text \<open>The body of the inner loop, for the \<open>j\<close>-th neighbour \<open>nghb_id\<close> of node \<open>i\<close> of the batch.\<close>

definition copy_neighbour ::
  "tensor3 \<Rightarrow> tensor4 \<Rightarrow> nat \<Rightarrow> nat \<Rightarrow> nat \<Rightarrow> nat \<times> nat \<Rightarrow> neighbour_buffers
     \<Rightarrow> error + neighbour_buffers" where
  "copy_neighbour nodes edges i batch_id node_id jn bufs =
     (case jn of (j, nghb_id) \<Rightarrow>
        bind_result (getitem2 nodes batch_id nghb_id) (\<lambda>node_row.
        bind_result (setitem_row (node_batch_node_nghbs bufs) i j node_row) (\<lambda>nghbs.
        bind_result (getitem3 edges batch_id node_id nghb_id) (\<lambda>edge_row.
        bind_result (setitem_row (node_batch_edges bufs) i j edge_row) (\<lambda>edgs.
        bind_result (setitem2 (node_batch_node_nghb_mask bufs) i j 1) (\<lambda>msk.
        Inr \<lparr> node_batch_node_nghbs = nghbs, node_batch_edges = edgs,
              node_batch_node_nghb_mask = msk \<rparr>))))))"

text \<open>
  \<open>edge_batch_nghb_idc[(edge_batch_batch_idc == batch_id) & (edge_batch_node_idc == node_id)]\<close>
\<close>

definition neighbors_idc :: "nat list \<times> nat list \<times> nat list \<Rightarrow> nat \<Rightarrow> nat \<Rightarrow> nat list" where
  "neighbors_idc edge_idc batch_id node_id =
     (case edge_idc of (edge_batch_batch_idc, edge_batch_node_idc, edge_batch_nghb_idc) \<Rightarrow>
        mask_select edge_batch_nghb_idc
          (map2 (\<lambda>b n. b = batch_id \<and> n = node_id) edge_batch_batch_idc edge_batch_node_idc))"

text \<open>The body of the outer loop, for node \<open>i\<close> of the batch.\<close>

definition map_node ::
  "tensor3 \<Rightarrow> tensor4 \<Rightarrow> nat list \<times> nat list \<times> nat list \<Rightarrow> nat list \<times> nat list \<Rightarrow> nat
     \<Rightarrow> neighbour_buffers \<Rightarrow> error + neighbour_buffers" where
  "map_node nodes edges edge_idc node_idc i bufs =
     (case node_idc of (node_batch_batch_idc, node_batch_node_idc) \<Rightarrow>
        (let node_id = node_batch_node_idc ! i;
             batch_id = node_batch_batch_idc ! i
         in for_each (copy_neighbour nodes edges i batch_id node_id)
              (enumerate 0 (neighbors_idc edge_idc batch_id node_id)) bufs))"

definition neighbour_lists ::
  "'z SummationMPNN_scheme \<Rightarrow> tensor3 \<Rightarrow> tensor4 \<Rightarrow> error + neighbour_buffers" where
  "neighbour_lists self nodes edges =
     (let adjacency = sum_dim3 edges;
          edge_idc = nonzero3 adjacency;
          node_idc = nonzero2 (sum_last adjacency);
          node_batch_size = length (fst node_idc)
      in bind_result (max_entry (sum_last adjacency)) (\<lambda>max_node_degree.
         bind_result (zeros3 node_batch_size max_node_degree (hidden_node_features self)) (\<lambda>nghbs.
         bind_result (zeros3 node_batch_size max_node_degree (edge_features self)) (\<lambda>edgs.
         bind_result (zeros2 node_batch_size max_node_degree) (\<lambda>msk.
         for_each (map_node nodes edges edge_idc node_idc) [0..<node_batch_size]
           \<lparr> node_batch_node_nghbs = nghbs, node_batch_edges = edgs,
             node_batch_node_nghb_mask = msk \<rparr>)))))"

subsection \<open>forward: the message passes and the readout (lines 126 to 140)\<close>

text \<open>
  \<^verbatim>\<open>
  hidden_nodes = torch.zeros_like(nodes, device=nodes.device)
  hidden_nodes[:, :nodes.shape[1], :] = nodes
  for _ in range(self.message_passes):
      messages = self.aggregate_message(nodes=hidden_nodes[node_batch_batch_idc, node_batch_node_idc, :],
                                        node_neighbours=node_batch_node_nghbs,
                                        edges=node_batch_edges,
                                        mask=node_batch_node_nghb_mask)
      hidden_nodes[node_batch_batch_idc, node_batch_node_idc, :] = self.update(
          hidden_nodes[node_batch_batch_idc, node_batch_node_idc, :], messages)
  node_mask = (adjacency.sum(-1) != 0)
  output = self.readout(hidden_nodes, nodes, node_mask)
  return output
  \<close>
  The hidden states and the instance are the state of the loop. In each round Python
  looks \<open>self.aggregate_message\<close> up before it evaluates the arguments of the call, and
  evaluates the right-hand side of the assignment before it writes.
\<close>

definition zeros_like :: "tensor3 \<Rightarrow> tensor3" where
  "zeros_like t = map (map (map (\<lambda>_. 0))) t"

text \<open>\<open>t.shape[1]\<close> and \<open>t.shape[2]\<close>, read off the first entries of the nested list.\<close>

definition shape1 :: "'a list list \<Rightarrow> nat" where
  "shape1 t = (case t of [] \<Rightarrow> 0 | g # _ \<Rightarrow> length g)"

definition shape2 :: "'a list list list \<Rightarrow> nat" where
  "shape2 t = (case t of [] \<Rightarrow> 0 | g # _ \<Rightarrow> shape1 g)"

text \<open>\<open>h[:, :n, :] = src\<close> for tensors of one shape.\<close>

definition assign_leading :: "tensor3 \<Rightarrow> nat \<Rightarrow> tensor3 \<Rightarrow> tensor3" where
  "assign_leading h n src = map2 (\<lambda>hg sg. take n sg @ drop n hg) h src"

definition pad_hidden :: "tensor3 \<Rightarrow> tensor3" where
  "pad_hidden nodes = assign_leading (zeros_like nodes) (shape1 nodes) nodes"

fun collect :: "(error + 'a) list \<Rightarrow> error + 'a list" where
  "collect [] = Inr []"
| "collect (r # rs) = bind_result r (\<lambda>x. bind_result (collect rs) (\<lambda>xs. Inr (x # xs)))"

text \<open>\<open>hidden_nodes[node_batch_batch_idc, node_batch_node_idc, :]\<close>\<close>

definition gather :: "tensor3 \<Rightarrow> nat list \<times> nat list \<Rightarrow> error + tensor2" where
  "gather h idc = (case idc of (bs, ns) \<Rightarrow> collect (map2 (getitem2 h) bs ns))"

text \<open>
  \<open>hidden_nodes[node_batch_batch_idc, node_batch_node_idc, :] = v\<close>: the value is broadcast
  to the shape of the indexed rows, then written row by row.
\<close>

definition broadcast2 :: "nat \<Rightarrow> nat \<Rightarrow> tensor2 \<Rightarrow> error + tensor2" where
  "broadcast2 k w v =
     bind_result (collect (map (broadcast_row w) v)) (\<lambda>rows.
       if length rows = k then Inr rows
       else if length rows = 1 then Inr (replicate k (hd rows))
       else Inl RuntimeError)"

definition index_put :: "tensor3 \<Rightarrow> nat list \<times> nat list \<Rightarrow> tensor2 \<Rightarrow> error + tensor3" where
  "index_put h idc v =
     (case idc of (bs, ns) \<Rightarrow>
        bind_result (broadcast2 (length bs) (shape2 h) v) (\<lambda>rows.
          for_each (\<lambda>(b, n, row) h'. setitem2 h' b n row) (zip bs (zip ns rows)) h))"

text \<open>The body of the loop over \<open>range(self.message_passes)\<close>.\<close>

definition message_pass ::
  "('s, 'o) methods \<Rightarrow> nat list \<times> nat list \<Rightarrow> neighbour_buffers \<Rightarrow> tensor3 \<Rightarrow> 's
     \<Rightarrow> ('s, tensor3) outcome" where
  "message_pass cls node_idc bufs hidden_nodes self =
     (case aggregate_message cls of
        None \<Rightarrow> (Inl AttributeError, self)
      | Some aggregate \<Rightarrow>
          (case gather hidden_nodes node_idc of
             Inl e \<Rightarrow> (Inl e, self)
           | Inr cur \<Rightarrow>
               (case aggregate self cur (node_batch_node_nghbs bufs) (node_batch_edges bufs)
                       (node_batch_node_nghb_mask bufs) of
                  (Inl e, self1) \<Rightarrow> (Inl e, self1)
                | (Inr messages, self1) \<Rightarrow>
                    (case gather hidden_nodes node_idc of
                       Inl e \<Rightarrow> (Inl e, self1)
                     | Inr cur' \<Rightarrow>
                         (case update cls self1 cur' messages of
                            (Inl e, self2) \<Rightarrow> (Inl e, self2)
                          | (Inr new_rows, self2) \<Rightarrow>
                              (index_put hidden_nodes node_idc new_rows, self2))))))"

fun for_rounds ::
  "nat list \<Rightarrow> (tensor3 \<Rightarrow> 's \<Rightarrow> ('s, tensor3) outcome) \<Rightarrow> tensor3 \<Rightarrow> 's \<Rightarrow> ('s, tensor3) outcome"
  where
  "for_rounds [] body h self = (Inr h, self)"
| "for_rounds (_ # ks) body h self =
     (case body h self of
        (Inl e, self') \<Rightarrow> (Inl e, self')
      | (Inr h', self') \<Rightarrow> for_rounds ks body h' self')"

definition message_passing ::
  "('z SummationMPNN_scheme, 'o) methods \<Rightarrow> 'z SummationMPNN_scheme \<Rightarrow> tensor3 \<Rightarrow> tensor4
     \<Rightarrow> neighbour_buffers \<Rightarrow> ('z SummationMPNN_scheme, tensor3) outcome" where
  "message_passing cls self nodes edges bufs =
     (let node_idc = nonzero2 (sum_last (sum_dim3 edges));
          hidden_nodes = pad_hidden nodes
      in for_rounds [0..<message_passes self] (message_pass cls node_idc bufs) hidden_nodes self)"

definition node_mask_of :: "tensor4 \<Rightarrow> bool list list" where
  "node_mask_of edges = map (map (\<lambda>d. d \<noteq> 0)) (sum_last (sum_dim3 edges))"

definition forward ::
  "('z SummationMPNN_scheme, 'o) methods \<Rightarrow> 'z SummationMPNN_scheme \<Rightarrow> tensor3 \<Rightarrow> tensor4
     \<Rightarrow> ('z SummationMPNN_scheme, 'o) outcome" where
  "forward cls self nodes edges =
     (case neighbour_lists self nodes edges of
        Inl e \<Rightarrow> (Inl e, self)
      | Inr bufs \<Rightarrow>
          (case message_passing cls self nodes edges bufs of
             (Inl e, self') \<Rightarrow> (Inl e, self')
           | (Inr hidden_nodes, self') \<Rightarrow>
               readout cls self' hidden_nodes nodes (node_mask_of edges)))"

subsection \<open>Subclasses and batches for the examples\<close>

text \<open>
  A subclass that implements the three methods the base class documents, and nothing
  else.
\<close>

definition documented_class :: "(SummationMPNN, tensor3 \<times> tensor3 \<times> bool list list) methods" where
  "documented_class =
     \<lparr> message_terms = (\<lambda>self nodes node_neighbours edges. (Inr nodes, self)),
       update = (\<lambda>self nodes messages.
                   (Inr (map (map (\<lambda>x. x + sum_list (concat messages))) nodes), self)),
       readout = (\<lambda>self hidden_nodes input_nodes node_mask.
                    (Inr (hidden_nodes, input_nodes, node_mask), self)),
       aggregate_message = None \<rparr>"

text \<open>
  A subclass that also defines \<open>aggregate_message\<close> (the sum of each node's neighbour
  rows). Its instances count the method calls in an attribute of their own.
\<close>

record CountingMPNN = SummationMPNN +
  calls :: nat

definition counting_aggregate ::
  "CountingMPNN \<Rightarrow> tensor2 \<Rightarrow> tensor3 \<Rightarrow> tensor3 \<Rightarrow> tensor2 \<Rightarrow> (CountingMPNN, tensor2) outcome"
  where
  "counting_aggregate self nodes node_neighbours edges nghb_mask =
     (Inr (map (\<lambda>rows. foldr (map2 (+)) rows (replicate (hidden_node_features self) 0))
             node_neighbours),
      self\<lparr>calls := Suc (calls self)\<rparr>)"

definition counting_class ::
  "(CountingMPNN, tensor3 \<times> tensor3 \<times> bool list list) methods" where
  "counting_class =
     \<lparr> message_terms = (\<lambda>self nodes node_neighbours edges. (Inr nodes, self)),
       update = (\<lambda>self nodes messages.
                   (Inr (map (map (\<lambda>x. x + sum_list (concat messages))) nodes),
                    self\<lparr>calls := Suc (calls self)\<rparr>)),
       readout = (\<lambda>self hidden_nodes input_nodes node_mask.
                    (Inr (hidden_nodes, input_nodes, node_mask),
                     self\<lparr>calls := Suc (calls self)\<rparr>)),
       aggregate_message = Some counting_aggregate \<rparr>"

definition example_constants :: constants_tuple where
  "example_constants =
     \<lparr> c_hidden_node_features = 2, c_n_edge_features = 1, c_message_size = 2,
       c_message_passes = 2 \<rparr>"

definition counting_instance :: CountingMPNN where
  "counting_instance = SummationMPNN.extend (init example_constants) (CountingMPNN.fields 0)"

text \<open>
  One graph padded to four nodes: node 0 is bonded to nodes 1 and 2, node 3 is padding.
\<close>

definition example_nodes :: tensor3 where
  "example_nodes = [[[1, 2], [3, 4], [5, 6], [7, 8]]]"

definition example_edges :: tensor4 where
  "example_edges =
     [[[[0], [1], [1], [0]], [[1], [0], [0], [0]], [[1], [0], [0], [0]], [[0], [0], [0], [0]]]]"

text \<open>Two bonded nodes, with three features and with one feature per node.\<close>

definition pair_edges :: tensor4 where
  "pair_edges = [[[[0], [1]], [[1], [0]]]]"

definition wide_nodes :: tensor3 where
  "wide_nodes = [[[1, 2, 3], [4, 5, 6]]]"

definition narrow_nodes :: tensor3 where
  "narrow_nodes = [[[5], [7]]]"





text \<open>One node without edges, with three features.\<close>

definition lone_node :: tensor3 where
  "lone_node = [[[1, 2, 3]]]"

definition no_edges :: tensor4 where
  "no_edges = [[[[0]]]]"





subsection \<open>Notions the claims are stated with\<close>


text \<open>
  The neighbours of node \<open>n\<close> of graph \<open>b\<close> under an adjacency tensor, in ascending
  order, and the node's degree: the number of its neighbours.
\<close>

definition neighbours :: "tensor3 \<Rightarrow> nat \<Rightarrow> nat \<Rightarrow> nat list" where
  "neighbours adjacency b n =
     filter (\<lambda>m. adjacency ! b ! n ! m \<noteq> 0) [0..<length (adjacency ! b ! n)]"

definition degree :: "tensor3 \<Rightarrow> nat \<Rightarrow> nat \<Rightarrow> nat" where
  "degree adjacency b n = length (neighbours adjacency b n)"

text \<open>
  The nodes selected into the node batch, in batch order: those whose adjacency row
  has a nonzero sum.
\<close>

definition selected :: "tensor3 \<Rightarrow> (nat \<times> nat) list" where
  "selected adjacency =
     (let s = sum_last adjacency
      in [(b, n). b \<leftarrow> [0..<length s], n \<leftarrow> [0..<length (s ! b)], s ! b ! n \<noteq> 0])"




text \<open>
  The width of the neighbour buffers of a batch (\<open>max_node_degree\<close> in the source): the
  largest sum of an adjacency row.
\<close>

definition max_node_degree :: "tensor4 \<Rightarrow> nat" where
  "max_node_degree edges =
     (case max_entry (sum_last (sum_dim3 edges)) of Inl _ \<Rightarrow> 0 | Inr d \<Rightarrow> nat d)"






subsection \<open>Notions the proofs are stated with\<close>

text \<open>
  \<open>wrote t t' i j0 k f\<close>: the grid \<open>t'\<close> is \<open>t\<close> with the cells \<open>j0, ..., j0 + k - 1\<close> of
  row \<open>i\<close> overwritten, cell \<open>j0 + d\<close> by \<open>f d\<close> of its old content.
\<close>

definition wrote ::
  "'a list list \<Rightarrow> 'a list list \<Rightarrow> nat \<Rightarrow> nat \<Rightarrow> nat \<Rightarrow> (nat \<Rightarrow> 'a \<Rightarrow> 'a) \<Rightarrow> bool" where
  "wrote t t' i j0 k f \<longleftrightarrow>
     length t' = length t \<and> (\<forall>i'. length (t' ! i') = length (t ! i')) \<and>
     (0 < k \<longrightarrow> i < length t \<and> j0 + k \<le> length (t ! i)) \<and>
     (\<forall>i' j'. t' ! i' ! j' =
        (if i' = i \<and> j0 \<le> j' \<and> j' < j0 + k then f (j' - j0) (t ! i' ! j') else t ! i' ! j'))"

text \<open>The row that \<open>t[i, j, :] = v\<close> stores in a cell holding \<open>old\<close>, when it stores one.\<close>

definition broadcast_to :: "tensor1 \<Rightarrow> tensor1 \<Rightarrow> tensor1" where
  "broadcast_to v old = (if length v = length old then v else replicate (length old) (hd v))"

text \<open>
  \<open>filled t t' k deg f\<close>: the grid \<open>t'\<close> is \<open>t\<close> with the first \<open>deg i\<close> cells of each row
  \<open>i < k\<close> overwritten, cell \<open>j\<close> of row \<open>i\<close> by \<open>f i j\<close> of its old content.
\<close>

definition filled ::
  "'a list list \<Rightarrow> 'a list list \<Rightarrow> nat \<Rightarrow> (nat \<Rightarrow> nat) \<Rightarrow> (nat \<Rightarrow> nat \<Rightarrow> 'a \<Rightarrow> 'a) \<Rightarrow> bool" where
  "filled t t' k deg f \<longleftrightarrow>
     length t' = length t \<and> (\<forall>i'. length (t' ! i') = length (t ! i')) \<and>
     (\<forall>i<k. 0 < deg i \<longrightarrow> i < length t \<and> deg i \<le> length (t ! i)) \<and>
     (\<forall>i' j'. t' ! i' ! j' =
        (if i' < k \<and> j' < deg i' then f i' j' (t ! i' ! j') else t ! i' ! j'))"




section \<open>The script: lemmas\<close>



section \<open>The script: claims\<close>





section \<open>The module: lemmas\<close>

subsection \<open>Results and loops\<close>

lemma bind_result_simps [simp]:
  "bind_result (Inl e) f = Inl e"
  "bind_result (Inr x) f = f x"
  by (simp_all add: bind_result_def)

lemma bind_result_eq_Inr:
  "bind_result r f = Inr y \<longleftrightarrow> (\<exists>x. r = Inr x \<and> f x = Inr y)"
  by (cases r) simp_all

lemma for_each_append:
  "for_each body (xs @ ys) s = bind_result (for_each body xs s) (for_each body ys)"
  by (induction xs arbitrary: s) (simp_all split: sum.splits)

subsection \<open>Reading and writing cells\<close>

lemma setitem2_Inr:
  "setitem2 t i j v = Inr t' \<longleftrightarrow>
     i < length t \<and> j < length (t ! i) \<and> t' = t[i := (t ! i)[j := v]]"
  by (auto simp: setitem2_def)

lemma broadcast_row_Inr:
  "broadcast_row w v = Inr v' \<longleftrightarrow>
     (length v = w \<or> length v = 1) \<and> v' = (if length v = w then v else replicate w (hd v))"
  by (auto simp: broadcast_row_def)

lemma length_broadcast_row: "broadcast_row w v = Inr v' \<Longrightarrow> length v' = w"
  by (auto simp: broadcast_row_Inr)

lemma setitem_row_Inr:
  "setitem_row t i j v = Inr t' \<longleftrightarrow>
     i < length t \<and> j < length (t ! i) \<and>
     (\<exists>v'. broadcast_row (length (t ! i ! j)) v = Inr v' \<and> t' = t[i := (t ! i)[j := v']])"
  by (auto simp: setitem_row_def bind_result_eq_Inr setitem2_Inr)

lemma getitem2_Inr:
  "getitem2 t b n = Inr x \<longleftrightarrow> b < length t \<and> n < length (t ! b) \<and> x = t ! b ! n"
  by (auto simp: getitem2_def)

lemma getitem3_Inr:
  "getitem3 t b n m = Inr x \<longleftrightarrow>
     b < length t \<and> n < length (t ! b) \<and> m < length (t ! b ! n) \<and> x = t ! b ! n ! m"
  by (auto simp: getitem3_def)

lemma wrote_refl: "wrote t t i j0 0 f"
  by (auto simp: wrote_def)

lemma wrote_cong: "wrote t t' i j0 k f \<Longrightarrow> f = g \<Longrightarrow> wrote t t' i j0 k g"
  by simp

lemma wrote_cell:
  assumes "i < length t" "j < length (t ! i)"
  shows "wrote t (t[i := (t ! i)[j := g (t ! i ! j)]]) i j (Suc 0) (\<lambda>_. g)"
  unfolding wrote_def
proof (intro conjI allI impI)
  let ?t' = "t[i := (t ! i)[j := g (t ! i ! j)]]"
  show "length ?t' = length t" by simp
  show "length (?t' ! i') = length (t ! i')" for i'
    using assms by (cases "i' = i") simp_all
  show "i < length t" by fact
  show "j + Suc 0 \<le> length (t ! i)" using assms by simp
  show "?t' ! i' ! j' =
      (if i' = i \<and> j \<le> j' \<and> j' < j + Suc 0 then g (t ! i' ! j') else t ! i' ! j')" for i' j'
    using assms by (cases "i' = i"; cases "j' = j") auto
qed

lemma wrote_step:
  assumes a: "wrote t t1 i j0 (Suc 0) (\<lambda>_. g)"
    and b: "wrote t1 t2 i (Suc j0) k f"
  shows "wrote t t2 i j0 (Suc k) (\<lambda>d. case d of 0 \<Rightarrow> g | Suc d' \<Rightarrow> f d')"
  unfolding wrote_def
proof (intro conjI allI impI)
  from a b show "length t2 = length t" by (simp add: wrote_def)
  from a b show "length (t2 ! i') = length (t ! i')" for i' by (simp add: wrote_def)
  from a show "i < length t" by (simp add: wrote_def)
  show "j0 + Suc k \<le> length (t ! i)"
  proof (cases k)
    case 0
    with a show ?thesis by (simp add: wrote_def)
  next
    case (Suc k')
    with b have "Suc j0 + k \<le> length (t1 ! i)" by (simp add: wrote_def)
    moreover from a have "length (t1 ! i) = length (t ! i)" by (simp add: wrote_def)
    ultimately show ?thesis by simp
  qed
  show "t2 ! i' ! j' =
      (if i' = i \<and> j0 \<le> j' \<and> j' < j0 + Suc k
       then (case j' - j0 of 0 \<Rightarrow> g | Suc d' \<Rightarrow> f d') (t ! i' ! j') else t ! i' ! j')" for i' j'
  proof -
    from b have 2: "t2 ! i' ! j' =
        (if i' = i \<and> Suc j0 \<le> j' \<and> j' < Suc j0 + k
         then f (j' - Suc j0) (t1 ! i' ! j') else t1 ! i' ! j')"
      by (simp add: wrote_def)
    from a have 1: "t1 ! i' ! j' =
        (if i' = i \<and> j0 \<le> j' \<and> j' < j0 + Suc 0 then g (t ! i' ! j') else t ! i' ! j')"
      by (simp add: wrote_def)
    show ?thesis
    proof (cases "i' = i \<and> j0 \<le> j' \<and> j' < j0 + Suc k")
      case False
      with 1 2 show ?thesis by auto
    next
      case True
      show ?thesis
      proof (cases "j' = j0")
        case True
        with 1 2 \<open>i' = i \<and> j0 \<le> j' \<and> j' < j0 + Suc k\<close> show ?thesis by simp
      next
        case False
        with True obtain d where d: "j' - j0 = Suc d" "j' - Suc j0 = d"
          by (cases "j' - j0") auto
        with 1 2 True False show ?thesis by auto
      qed
    qed
  qed
qed

lemma setitem_row_wrote:
  assumes "setitem_row t i j v = Inr t'"
  shows "wrote t t' i j (Suc 0) (\<lambda>_. broadcast_to v)"
    and "length v = length (t ! i ! j) \<or> length v = 1"
proof -
  from assms obtain v' where *: "i < length t" "j < length (t ! i)"
    "broadcast_row (length (t ! i ! j)) v = Inr v'" "t' = t[i := (t ! i)[j := v']]"
    by (auto simp: setitem_row_Inr)
  from *(3) have v': "v' = broadcast_to v (t ! i ! j)"
    and **: "length v = length (t ! i ! j) \<or> length v = 1"
    by (auto simp: broadcast_row_Inr broadcast_to_def)
  from wrote_cell [OF *(1,2), of "broadcast_to v"] *(4) v'
  show "wrote t t' i j (Suc 0) (\<lambda>_. broadcast_to v)" by simp
  from ** show "length v = length (t ! i ! j) \<or> length v = 1" .
qed

lemma setitem2_wrote:
  assumes "setitem2 t i j v = Inr t'"
  shows "wrote t t' i j (Suc 0) (\<lambda>_ _. v)"
proof -
  from assms have *: "i < length t" "j < length (t ! i)" "t' = t[i := (t ! i)[j := v]]"
    by (auto simp: setitem2_Inr)
  from wrote_cell [OF *(1,2), of "\<lambda>_. v"] *(3) show ?thesis by simp
qed

lemma copy_neighbour_wrote:
  assumes "copy_neighbour nodes edges i b n (j, m) bufs = Inr bufs'"
  shows "wrote (node_batch_node_nghbs bufs) (node_batch_node_nghbs bufs') i j (Suc 0)
           (\<lambda>_. broadcast_to (nodes ! b ! m))"
    and "wrote (node_batch_edges bufs) (node_batch_edges bufs') i j (Suc 0)
           (\<lambda>_. broadcast_to (edges ! b ! n ! m))"
    and "wrote (node_batch_node_nghb_mask bufs) (node_batch_node_nghb_mask bufs') i j (Suc 0)
           (\<lambda>_ _. 1)"
proof -
  from assms obtain node_row nghbs edge_row edgs msk where
    1: "getitem2 nodes b m = Inr node_row"
    and 2: "setitem_row (node_batch_node_nghbs bufs) i j node_row = Inr nghbs"
    and 3: "getitem3 edges b n m = Inr edge_row"
    and 4: "setitem_row (node_batch_edges bufs) i j edge_row = Inr edgs"
    and 5: "setitem2 (node_batch_node_nghb_mask bufs) i j 1 = Inr msk"
    and 6: "bufs' = \<lparr> node_batch_node_nghbs = nghbs, node_batch_edges = edgs,
              node_batch_node_nghb_mask = msk \<rparr>"
    unfolding copy_neighbour_def by (auto simp: bind_result_eq_Inr)
  from 1 have "node_row = nodes ! b ! m" by (simp add: getitem2_Inr)
  with setitem_row_wrote(1) [OF 2] 6
  show "wrote (node_batch_node_nghbs bufs) (node_batch_node_nghbs bufs') i j (Suc 0)
           (\<lambda>_. broadcast_to (nodes ! b ! m))" by simp
  from 3 have "edge_row = edges ! b ! n ! m" by (simp add: getitem3_Inr)
  with setitem_row_wrote(1) [OF 4] 6
  show "wrote (node_batch_edges bufs) (node_batch_edges bufs') i j (Suc 0)
           (\<lambda>_. broadcast_to (edges ! b ! n ! m))" by simp
  from setitem2_wrote [OF 5] 6
  show "wrote (node_batch_node_nghb_mask bufs) (node_batch_node_nghb_mask bufs') i j (Suc 0)
           (\<lambda>_ _. 1)" by simp
qed

lemma inner_loop_wrote:
  assumes "for_each (copy_neighbour nodes edges i b n) (enumerate j0 ms) bufs = Inr bufs'"
  shows "wrote (node_batch_node_nghbs bufs) (node_batch_node_nghbs bufs') i j0 (length ms)
           (\<lambda>d. broadcast_to (nodes ! b ! (ms ! d)))
       \<and> wrote (node_batch_edges bufs) (node_batch_edges bufs') i j0 (length ms)
           (\<lambda>d. broadcast_to (edges ! b ! n ! (ms ! d)))
       \<and> wrote (node_batch_node_nghb_mask bufs) (node_batch_node_nghb_mask bufs') i j0
           (length ms) (\<lambda>_ _. 1)"
  using assms
proof (induction ms arbitrary: j0 bufs)
  case Nil
  then show ?case by (simp add: wrote_refl)
next
  case (Cons m ms)
  from Cons.prems obtain bufs1 where
    first: "copy_neighbour nodes edges i b n (j0, m) bufs = Inr bufs1"
    and rest: "for_each (copy_neighbour nodes edges i b n) (enumerate (Suc j0) ms) bufs1
                 = Inr bufs'"
    by (auto split: sum.splits)
  note ih = Cons.IH [OF rest]
  note st = copy_neighbour_wrote [OF first]
  have f1: "(\<lambda>d. case d of 0 \<Rightarrow> broadcast_to (nodes ! b ! m)
                 | Suc d' \<Rightarrow> broadcast_to (nodes ! b ! (ms ! d')))
            = (\<lambda>d. broadcast_to (nodes ! b ! ((m # ms) ! d)))"
    by (rule ext) (simp split: nat.split)
  have f2: "(\<lambda>d. case d of 0 \<Rightarrow> broadcast_to (edges ! b ! n ! m)
                 | Suc d' \<Rightarrow> broadcast_to (edges ! b ! n ! (ms ! d')))
            = (\<lambda>d. broadcast_to (edges ! b ! n ! ((m # ms) ! d)))"
    by (rule ext) (simp split: nat.split)
  have f3: "(\<lambda>d. case d of 0 \<Rightarrow> (\<lambda>_. 1::int) | Suc d' \<Rightarrow> (\<lambda>_. 1)) = (\<lambda>_ _. 1)"
    by (rule ext) (simp split: nat.split)
  from wrote_cong [OF wrote_step [OF st(1) conjunct1 [OF ih]] f1]
  have a: "wrote (node_batch_node_nghbs bufs) (node_batch_node_nghbs bufs') i j0
             (length (m # ms)) (\<lambda>d. broadcast_to (nodes ! b ! ((m # ms) ! d)))"
    by simp
  from wrote_cong [OF wrote_step [OF st(2) conjunct1 [OF conjunct2 [OF ih]]] f2]
  have b: "wrote (node_batch_edges bufs) (node_batch_edges bufs') i j0
             (length (m # ms)) (\<lambda>d. broadcast_to (edges ! b ! n ! ((m # ms) ! d)))"
    by simp
  from wrote_cong [OF wrote_step [OF st(3) conjunct2 [OF conjunct2 [OF ih]]] f3]
  have c: "wrote (node_batch_node_nghb_mask bufs) (node_batch_node_nghb_mask bufs') i j0
             (length (m # ms)) (\<lambda>_ _. 1)"
    by simp
  from a b c show ?case by blast
qed

subsection \<open>What the method calls leave unchanged\<close>



lemma message_pass_ignores_message_terms:
  "message_pass (cls\<lparr>message_terms := f\<rparr>) = message_pass cls"
  by (intro ext) (simp add: message_pass_def split: option.splits sum.splits prod.splits)

lemma forward_ignores_message_terms:
  "forward (cls\<lparr>message_terms := f\<rparr>) self nodes edges = forward cls self nodes edges"
  by (simp add: forward_def message_passing_def message_pass_ignores_message_terms
      split: sum.splits prod.splits)


subsection \<open>The two loops that build the neighbour lists\<close>

lemma filled_refl: "filled t t 0 deg f"
  by (auto simp: filled_def)

lemma filled_step:
  assumes a: "filled t t1 k deg f" and b: "wrote t1 t2 k 0 (deg k) (f k)"
  shows "filled t t2 (Suc k) deg f"
  unfolding filled_def
proof (intro conjI allI impI)
  from a b show "length t2 = length t" by (simp add: filled_def wrote_def)
  from a b show "length (t2 ! i') = length (t ! i')" for i'
    by (simp add: filled_def wrote_def)
  fix i assume i: "i < Suc k" and d: "0 < deg i"
  show "i < length t"
  proof (cases "i = k")
    case True
    with b d have "k < length t1" by (simp add: wrote_def)
    with a True show ?thesis by (simp add: filled_def)
  next
    case False
    with i d a show ?thesis by (simp add: filled_def)
  qed
  show "deg i \<le> length (t ! i)"
  proof (cases "i = k")
    case True
    with b d have "deg k \<le> length (t1 ! k)" by (simp add: wrote_def)
    with a True show ?thesis by (simp add: filled_def)
  next
    case False
    with i d a show ?thesis by (simp add: filled_def)
  qed
next
  fix i' j'
  from b have 2: "t2 ! i' ! j' =
      (if i' = k \<and> j' < deg k then f k j' (t1 ! i' ! j') else t1 ! i' ! j')"
    by (simp add: wrote_def)
  from a have 1: "t1 ! i' ! j' =
      (if i' < k \<and> j' < deg i' then f i' j' (t ! i' ! j') else t ! i' ! j')"
    by (simp add: filled_def)
  show "t2 ! i' ! j' =
      (if i' < Suc k \<and> j' < deg i' then f i' j' (t ! i' ! j') else t ! i' ! j')"
  proof (cases "i' = k")
    case True
    with 1 2 show ?thesis by simp
  next
    case False
    with 1 2 show ?thesis by (auto simp: less_Suc_eq)
  qed
qed

lemma for_each_single: "for_each body [x] s = body x s"
  by (cases "body x s") simp_all

lemma for_each_snoc:
  "for_each body (xs @ [x]) s = Inr s' \<longleftrightarrow>
     (\<exists>s1. for_each body xs s = Inr s1 \<and> body x s1 = Inr s')"
  by (induction xs arbitrary: s) (auto split: sum.splits)

lemma outer_loop_filled:
  assumes "for_each (map_node nodes edges edge_idc (bs, ns)) [0..<k] bufs = Inr bufs'"
  shows "filled (node_batch_node_nghbs bufs) (node_batch_node_nghbs bufs') k
           (\<lambda>i. length (neighbors_idc edge_idc (bs ! i) (ns ! i)))
           (\<lambda>i j. broadcast_to (nodes ! (bs ! i) ! (neighbors_idc edge_idc (bs ! i) (ns ! i) ! j)))
       \<and> filled (node_batch_edges bufs) (node_batch_edges bufs') k
           (\<lambda>i. length (neighbors_idc edge_idc (bs ! i) (ns ! i)))
           (\<lambda>i j. broadcast_to
                     (edges ! (bs ! i) ! (ns ! i) ! (neighbors_idc edge_idc (bs ! i) (ns ! i) ! j)))
       \<and> filled (node_batch_node_nghb_mask bufs) (node_batch_node_nghb_mask bufs') k
           (\<lambda>i. length (neighbors_idc edge_idc (bs ! i) (ns ! i))) (\<lambda>_ _ _. 1)"
  using assms
proof (induction k arbitrary: bufs')
  case 0
  then show ?case by (simp add: filled_refl)
next
  case (Suc k)
  from Suc.prems obtain bufs1 where
    before: "for_each (map_node nodes edges edge_idc (bs, ns)) [0..<k] bufs = Inr bufs1"
    and last: "map_node nodes edges edge_idc (bs, ns) k bufs1 = Inr bufs'"
    by (auto simp: for_each_snoc)
  note ih = Suc.IH [OF before]
  from last have "for_each (copy_neighbour nodes edges k (bs ! k) (ns ! k))
      (enumerate 0 (neighbors_idc edge_idc (bs ! k) (ns ! k))) bufs1 = Inr bufs'"
    by (simp add: map_node_def Let_def)
  note w = inner_loop_wrote [OF this]
  from filled_step [OF conjunct1 [OF ih] conjunct1 [OF w]]
    filled_step [OF conjunct1 [OF conjunct2 [OF ih]] conjunct1 [OF conjunct2 [OF w]]]
    filled_step [OF conjunct2 [OF conjunct2 [OF ih]] conjunct2 [OF conjunct2 [OF w]]]
  show ?case by blast
qed

subsection \<open>The index lists\<close>

lemma nonzero2_selected:
  "nonzero2 (sum_last adjacency) = (map fst (selected adjacency), map snd (selected adjacency))"
  by (simp add: nonzero2_def selected_def Let_def)

lemma selected_iff:
  "(b, n) \<in> set (selected adjacency) \<longleftrightarrow>
     b < length adjacency \<and> n < length (adjacency ! b) \<and> sum_list (adjacency ! b ! n) \<noteq> 0"
  by (auto simp: selected_def sum_last_def Let_def)

lemma mask_select_map:
  "mask_select (map f xs) (map2 g (map p xs) (map q xs)) = map f (filter (\<lambda>x. g (p x) (q x)) xs)"
  by (induction xs) (simp_all add: mask_select_def)

lemma filter_concat_map_single:
  assumes "b < k" and "\<And>x y. x < k \<Longrightarrow> x \<noteq> b \<Longrightarrow> y \<in> set (g x) \<Longrightarrow> \<not> P y"
  shows "filter P (concat (map g [0..<k])) = filter P (g b)"
  using assms
proof (induction k)
  case 0
  then show ?case by simp
next
  case (Suc k)
  show ?case
  proof (cases "b = k")
    case True
    have "\<not> P y" if "x < k" "y \<in> set (g x)" for x y
      using Suc.prems(2) [of x y] that True by simp
    then have "filter P (concat (map g [0..<k])) = []"
      by (auto simp: filter_empty_conv)
    with True show ?thesis by simp
  next
    case False
    with Suc.prems have "b < k" by simp
    have "filter P (concat (map g [0..<k])) = filter P (g b)"
    proof (rule Suc.IH [OF \<open>b < k\<close>])
      fix x y
      assume "x < k" "x \<noteq> b" "y \<in> set (g x)"
      then show "\<not> P y" using Suc.prems(2) [of x y] by simp
    qed
    moreover have "filter P (g k) = []"
      using Suc.prems(2) [of k] False by (auto simp: filter_empty_conv)
    ultimately show ?thesis by simp
  qed
qed

lemma concat_map_if: "concat (map (\<lambda>x. if P x then [f x] else []) xs) = map f (filter P xs)"
  by (induction xs) simp_all

lemma neighbors_idc_nonzero3:
  assumes "b < length adjacency" "n < length (adjacency ! b)"
  shows "neighbors_idc (nonzero3 adjacency) b n = neighbours adjacency b n"
proof -
  let ?P = "\<lambda>x. fst x = b \<and> fst (snd x) = n"
  let ?H = "\<lambda>b' n'. concat (map (\<lambda>m. if adjacency ! b' ! n' ! m \<noteq> 0 then [(b', n', m)] else [])
                         [0..<length (adjacency ! b' ! n')])"
  let ?G = "\<lambda>b'. concat (map (?H b') [0..<length (adjacency ! b')])"
  let ?idc = "concat (map ?G [0..<length adjacency])"
  have "neighbors_idc (nonzero3 adjacency) b n = map (snd \<circ> snd) (filter ?P ?idc)"
    by (simp add: neighbors_idc_def nonzero3_def Let_def mask_select_map)
  also have "filter ?P ?idc = filter ?P (?G b)"
    by (rule filter_concat_map_single [OF assms(1)]) (auto split: if_splits)
  also have "filter ?P (?G b) = filter ?P (?H b n)"
    by (rule filter_concat_map_single [OF assms(2)]) (auto split: if_splits)
  also have "?H b n = map (\<lambda>m. (b, n, m)) (neighbours adjacency b n)"
    by (simp add: concat_map_if neighbours_def)
  also have "map (snd \<circ> snd) (filter ?P (map (\<lambda>m. (b, n, m)) (neighbours adjacency b n)))
      = neighbours adjacency b n"
    by (simp add: filter_map comp_def)
  finally show ?thesis .
qed

lemma neighbour_lists_Inr:
  "neighbour_lists self nodes edges = Inr bufs \<longleftrightarrow>
     (\<exists>d. max_entry (sum_last (sum_dim3 edges)) = Inr d \<and> 0 \<le> d \<and>
        for_each
          (map_node nodes edges (nonzero3 (sum_dim3 edges))
             (map fst (selected (sum_dim3 edges)), map snd (selected (sum_dim3 edges))))
          [0..<length (selected (sum_dim3 edges))]
          \<lparr> node_batch_node_nghbs =
              replicate (length (selected (sum_dim3 edges)))
                (replicate (nat d) (replicate (hidden_node_features self) 0)),
            node_batch_edges =
              replicate (length (selected (sum_dim3 edges)))
                (replicate (nat d) (replicate (edge_features self) 0)),
            node_batch_node_nghb_mask =
              replicate (length (selected (sum_dim3 edges))) (replicate (nat d) 0) \<rparr>
        = Inr bufs)"
proof (cases "max_entry (sum_last (sum_dim3 edges))")
  case (Inl e)
  then show ?thesis by (simp add: neighbour_lists_def Let_def)
next
  case (Inr d)
  then show ?thesis
    by (cases "d < 0")
       (simp_all add: neighbour_lists_def Let_def nonzero2_selected zeros3_def zeros2_def)
qed

lemma selected_nth:
  assumes "i < length (selected adjacency)" "selected adjacency ! i = (b, n)"
  shows "b < length adjacency" "n < length (adjacency ! b)" "sum_list (adjacency ! b ! n) \<noteq> 0"
proof -
  from assms(1) have "selected adjacency ! i \<in> set (selected adjacency)" by (rule nth_mem)
  with assms(2) have "(b, n) \<in> set (selected adjacency)" by simp
  then show "b < length adjacency" "n < length (adjacency ! b)"
    "sum_list (adjacency ! b ! n) \<noteq> 0"
    by (simp_all add: selected_iff)
qed

lemma sum_list_all_zero: "(\<forall>x \<in> set xs. x = (0::int)) \<Longrightarrow> sum_list xs = 0"
  by (induction xs) simp_all

lemma degree_positive:
  assumes "sum_list (adjacency ! b ! n) \<noteq> 0"
  shows "1 \<le> degree adjacency b n"
proof -
  from assms obtain x where "x \<in> set (adjacency ! b ! n)" "x \<noteq> 0"
    using sum_list_all_zero [of "adjacency ! b ! n"] by blast
  then obtain m where "m < length (adjacency ! b ! n)" "adjacency ! b ! n ! m \<noteq> 0"
    by (auto simp: in_set_conv_nth)
  then have "m \<in> set (neighbours adjacency b n)" by (simp add: neighbours_def)
  then have "neighbours adjacency b n \<noteq> []" by auto
  then show ?thesis by (cases "neighbours adjacency b n") (simp_all add: degree_def)
qed

text \<open>The buffers after the loops, cell by cell.\<close>

lemma neighbour_lists_cells:
  assumes ok: "neighbour_lists self nodes edges = Inr bufs"
    and i: "i < length (selected (sum_dim3 edges))"
    and bn: "selected (sum_dim3 edges) ! i = (b, n)"
  shows "length (node_batch_node_nghbs bufs) = length (selected (sum_dim3 edges))"
    and "length (node_batch_edges bufs) = length (selected (sum_dim3 edges))"
    and "length (node_batch_node_nghb_mask bufs) = length (selected (sum_dim3 edges))"
    and "length (node_batch_node_nghbs bufs ! i) = max_node_degree edges"
    and "length (node_batch_edges bufs ! i) = max_node_degree edges"
    and "length (node_batch_node_nghb_mask bufs ! i) = max_node_degree edges"
    and "degree (sum_dim3 edges) b n \<le> max_node_degree edges"
    and "j < max_node_degree edges \<Longrightarrow> node_batch_node_nghbs bufs ! i ! j =
          (if j < degree (sum_dim3 edges) b n
           then broadcast_to (nodes ! b ! (neighbours (sum_dim3 edges) b n ! j))
                  (replicate (hidden_node_features self) 0)
           else replicate (hidden_node_features self) 0)"
    and "j < max_node_degree edges \<Longrightarrow> node_batch_edges bufs ! i ! j =
          (if j < degree (sum_dim3 edges) b n
           then broadcast_to (edges ! b ! n ! (neighbours (sum_dim3 edges) b n ! j))
                  (replicate (edge_features self) 0)
           else replicate (edge_features self) 0)"
    and "j < max_node_degree edges \<Longrightarrow> node_batch_node_nghb_mask bufs ! i ! j =
          (if j < degree (sum_dim3 edges) b n then 1 else 0)"
proof -
  let ?adj = "sum_dim3 edges"
  let ?sel = "selected ?adj"
  let ?K = "length ?sel"
  let ?bs = "map fst ?sel" and ?ns = "map snd ?sel"
  let ?deg = "\<lambda>i. length (neighbors_idc (nonzero3 ?adj) (?bs ! i) (?ns ! i))"
  from ok obtain d where d: "max_entry (sum_last ?adj) = Inr d" "0 \<le> d"
    and loop: "for_each (map_node nodes edges (nonzero3 ?adj) (?bs, ?ns)) [0..<?K]
          \<lparr> node_batch_node_nghbs =
              replicate ?K (replicate (nat d) (replicate (hidden_node_features self) 0)),
            node_batch_edges =
              replicate ?K (replicate (nat d) (replicate (edge_features self) 0)),
            node_batch_node_nghb_mask = replicate ?K (replicate (nat d) 0) \<rparr>
        = Inr bufs"
    unfolding neighbour_lists_Inr by blast
  from d have D: "max_node_degree edges = nat d" by (simp add: max_node_degree_def)
  note sn = selected_nth [OF i bn]
  from i bn have bsns: "?bs ! i = b" "?ns ! i = n" by simp_all
  from neighbors_idc_nonzero3 [OF sn(1,2)] bsns
  have nb: "neighbors_idc (nonzero3 ?adj) (?bs ! i) (?ns ! i) = neighbours ?adj b n" by simp
  then have deg: "?deg i = degree ?adj b n" by (simp add: degree_def)
  let ?init = "\<lparr> node_batch_node_nghbs =
              replicate ?K (replicate (nat d) (replicate (hidden_node_features self) 0)),
            node_batch_edges =
              replicate ?K (replicate (nat d) (replicate (edge_features self) 0)),
            node_batch_node_nghb_mask = replicate ?K (replicate (nat d) 0) \<rparr>"
  have init: "node_batch_node_nghbs ?init =
        replicate ?K (replicate (nat d) (replicate (hidden_node_features self) 0))"
      "node_batch_edges ?init =
        replicate ?K (replicate (nat d) (replicate (edge_features self) 0))"
      "node_batch_node_nghb_mask ?init = replicate ?K (replicate (nat d) 0)"
    by simp_all
  note f = outer_loop_filled [OF loop, unfolded init]
  from conjunct1 [OF f] have fN: "filled (replicate ?K (replicate (nat d) (replicate (hidden_node_features self) 0)))
      (node_batch_node_nghbs bufs) ?K ?deg
      (\<lambda>i j. broadcast_to (nodes ! (?bs ! i) ! (neighbors_idc (nonzero3 ?adj) (?bs ! i) (?ns ! i) ! j)))"
    .
  from conjunct1 [OF conjunct2 [OF f]] have fE: "filled (replicate ?K (replicate (nat d) (replicate (edge_features self) 0)))
      (node_batch_edges bufs) ?K ?deg
      (\<lambda>i j. broadcast_to
         (edges ! (?bs ! i) ! (?ns ! i) ! (neighbors_idc (nonzero3 ?adj) (?bs ! i) (?ns ! i) ! j)))"
    .
  from conjunct2 [OF conjunct2 [OF f]] have fM: "filled (replicate ?K (replicate (nat d) (0::int)))
      (node_batch_node_nghb_mask bufs) ?K ?deg (\<lambda>_ _ _. 1)"
    .
  from fN show "length (node_batch_node_nghbs bufs) = ?K" by (simp add: filled_def)
  from fE show "length (node_batch_edges bufs) = ?K" by (simp add: filled_def)
  from fM show "length (node_batch_node_nghb_mask bufs) = ?K" by (simp add: filled_def)
  from fN i D show "length (node_batch_node_nghbs bufs ! i) = max_node_degree edges"
    by (simp add: filled_def)
  from fE i D show "length (node_batch_edges bufs ! i) = max_node_degree edges"
    by (simp add: filled_def)
  from fM i D show "length (node_batch_node_nghb_mask bufs ! i) = max_node_degree edges"
    by (simp add: filled_def)
  from degree_positive [OF sn(3)] deg have "0 < ?deg i" by simp
  with fM i have "?deg i \<le> length (replicate ?K (replicate (nat d) (0::int)) ! i)"
    unfolding filled_def by blast
  with i deg D show "degree ?adj b n \<le> max_node_degree edges" by simp
  {
    assume j: "j < max_node_degree edges"
    from fN have "node_batch_node_nghbs bufs ! i ! j =
        (if i < ?K \<and> j < ?deg i
         then broadcast_to (nodes ! (?bs ! i) ! (neighbors_idc (nonzero3 ?adj) (?bs ! i) (?ns ! i) ! j))
                (replicate ?K (replicate (nat d) (replicate (hidden_node_features self) 0)) ! i ! j)
         else replicate ?K (replicate (nat d) (replicate (hidden_node_features self) 0)) ! i ! j)"
      unfolding filled_def by blast
    with i j D deg nb bsns show "node_batch_node_nghbs bufs ! i ! j =
          (if j < degree ?adj b n
           then broadcast_to (nodes ! b ! (neighbours ?adj b n ! j))
                  (replicate (hidden_node_features self) 0)
           else replicate (hidden_node_features self) 0)"
      by simp
    from fE have "node_batch_edges bufs ! i ! j =
        (if i < ?K \<and> j < ?deg i
         then broadcast_to
                (edges ! (?bs ! i) ! (?ns ! i) ! (neighbors_idc (nonzero3 ?adj) (?bs ! i) (?ns ! i) ! j))
                (replicate ?K (replicate (nat d) (replicate (edge_features self) 0)) ! i ! j)
         else replicate ?K (replicate (nat d) (replicate (edge_features self) 0)) ! i ! j)"
      unfolding filled_def by blast
    with i j D deg nb bsns show "node_batch_edges bufs ! i ! j =
          (if j < degree ?adj b n
           then broadcast_to (edges ! b ! n ! (neighbours ?adj b n ! j))
                  (replicate (edge_features self) 0)
           else replicate (edge_features self) 0)"
      by simp
    from fM have "node_batch_node_nghb_mask bufs ! i ! j =
        (if i < ?K \<and> j < ?deg i then 1
         else replicate ?K (replicate (nat d) (0::int)) ! i ! j)"
      unfolding filled_def by blast
    with i j D deg show "node_batch_node_nghb_mask bufs ! i ! j =
          (if j < degree ?adj b n then 1 else 0)"
      by simp
  }
qed


subsection \<open>Shapes\<close>










subsection \<open>When the loops run to their end\<close>







subsection \<open>Degrees and the width of the buffers\<close>

















subsection \<open>A node feature width that does not fit the neighbour buffer\<close>

lemma max_entry_Inl: "max_entry t = Inl e \<Longrightarrow> e = RuntimeError"
  by (cases "concat t") (simp_all add: max_entry_def)

lemma for_each_first_fails: "body x s = Inl e \<Longrightarrow> for_each body (x # xs) s = Inl e"
  by simp

lemma copy_first_fails:
  assumes rows: "\<forall>g \<in> set nodes. \<forall>r \<in> set g. length r = f"
    and ne: "f \<noteq> w" "f \<noteq> 1"
  shows "copy_neighbour nodes edges 0 b n (0, m)
           \<lparr> node_batch_node_nghbs = replicate k (replicate d (replicate w 0)),
             node_batch_edges = es, node_batch_node_nghb_mask = ms \<rparr>
         \<in> {Inl RuntimeError, Inl IndexError}"
proof (cases "getitem2 nodes b m")
  case (Inl e)
  then have "e = IndexError" by (simp add: getitem2_def split: if_splits)
  with Inl show ?thesis by (simp add: copy_neighbour_def)
next
  case (Inr row)
  then have "b < length nodes" "m < length (nodes ! b)" "row = nodes ! b ! m"
    by (simp_all add: getitem2_Inr)
  then have "nodes ! b \<in> set nodes" "row \<in> set (nodes ! b)" by simp_all
  with rows have len: "length row = f" by blast
  let ?t = "replicate k (replicate d (replicate w (0::int)))"
  have "setitem_row ?t 0 0 row \<in> {Inl RuntimeError, Inl IndexError}"
  proof (cases "0 < k \<and> 0 < d")
    case True
    then have "?t ! 0 ! 0 = replicate w 0" by simp
    with True len ne show ?thesis by (simp add: setitem_row_def broadcast_row_def)
  next
    case False
    then show ?thesis by (auto simp: setitem_row_def)
  qed
  with Inr show ?thesis by (auto simp: copy_neighbour_def)
qed

lemma neighbour_lists_width_mismatch:
  assumes rows: "\<forall>g \<in> set nodes. \<forall>r \<in> set g. length r = f"
    and ne: "f \<noteq> hidden_node_features self" "f \<noteq> 1"
    and sel: "selected (sum_dim3 edges) \<noteq> []"
  shows "neighbour_lists self nodes edges \<in> {Inl RuntimeError, Inl IndexError}"
proof (cases "max_entry (sum_last (sum_dim3 edges))")
  case (Inl e)
  with max_entry_Inl [OF this] show ?thesis by (simp add: neighbour_lists_def Let_def)
next
  case (Inr d)
  let ?adj = "sum_dim3 edges"
  let ?sel = "selected ?adj"
  let ?K = "length ?sel"
  show ?thesis
  proof (cases "d < 0")
    case True
    with Inr show ?thesis by (simp add: neighbour_lists_def Let_def zeros3_def)
  next
    case False
    let ?init = "\<lparr> node_batch_node_nghbs =
          replicate ?K (replicate (nat d) (replicate (hidden_node_features self) 0)),
        node_batch_edges = replicate ?K (replicate (nat d) (replicate (edge_features self) 0)),
        node_batch_node_nghb_mask = replicate ?K (replicate (nat d) 0) \<rparr>"
    let ?body = "map_node nodes edges (nonzero3 ?adj) (map fst ?sel, map snd ?sel)"
    from Inr False have nl: "neighbour_lists self nodes edges = for_each ?body [0..<?K] ?init"
      by (simp add: neighbour_lists_def Let_def nonzero2_selected zeros3_def zeros2_def)
    from sel have K: "0 < ?K" by simp
    obtain b n where bn: "?sel ! 0 = (b, n)" by (cases "?sel ! 0")
    note sn = selected_nth [OF K bn]
    from K bn have bsns: "map fst ?sel ! 0 = b" "map snd ?sel ! 0 = n" by simp_all
    have nb: "neighbors_idc (nonzero3 ?adj) b n = neighbours ?adj b n"
      by (rule neighbors_idc_nonzero3 [OF sn(1,2)])
    from degree_positive [OF sn(3)] obtain m ms where ms: "neighbours ?adj b n = m # ms"
      by (cases "neighbours ?adj b n") (simp_all add: degree_def)
    from copy_first_fails [OF rows ne, of edges b n m ?K "nat d"]
    obtain e where e: "copy_neighbour nodes edges 0 b n (0, m) ?init = Inl e"
      and e': "e = RuntimeError \<or> e = IndexError"
      by auto
    from e have "?body 0 ?init = Inl e"
      by (simp add: map_node_def Let_def bsns nb ms)
    moreover from K have "[0..<?K] = 0 # [1..<?K]" by (simp add: upt_conv_Cons)
    ultimately have "for_each ?body [0..<?K] ?init = Inl e" by simp
    with nl e' show ?thesis by auto
  qed
qed


subsection \<open>The hidden states\<close>












subsection \<open>A round of message passing\<close>

lemma collect_map_Inr: "collect (map Inr xs) = Inr xs"
  by (induction xs) simp_all















section \<open>The module: claims\<close>

text \<open>
  Claim C2. The claim is that \<open>forward\<close> computes each round's messages through the
  method \<open>message_terms\<close> that the class documents for its subclasses. The code calls
  \<open>self.aggregate_message\<close> instead, which the class neither defines nor documents: for
  a subclass that implements the three documented methods, \<open>forward\<close> on a batch of one
  graph raises \<open>AttributeError\<close> in the first round, and \<open>message_terms\<close> is never
  called: the outcome of \<open>forward\<close> is the same whatever \<open>message_terms\<close> is.
\<close>

theorem forward_never_calls_message_terms:
  "forward documented_class (init example_constants) example_nodes example_edges
     = (Inl AttributeError, init example_constants)
   \<and> forward (cls\<lparr>message_terms := f\<rparr>) self nodes edges = forward cls self nodes edges"
proof
  show "forward documented_class (init example_constants) example_nodes example_edges
     = (Inl AttributeError, init example_constants)"
    by code_simp
  show "forward (cls\<lparr>message_terms := f\<rparr>) self nodes edges = forward cls self nodes edges"
    by (rule forward_ignores_message_terms)
qed

text \<open>
  Claim C4. Each of \<open>message_terms\<close>, \<open>update\<close> and \<open>readout\<close>, called on the base class
  with any arguments, raises \<open>NotImplementedError\<close> and returns no value.
\<close>

theorem base_methods_not_implemented:
  "message_terms SummationMPNN_class self nodes node_neighbours edges
     = (Inl NotImplementedError, self)
   \<and> update SummationMPNN_class self nodes messages = (Inl NotImplementedError, self)
   \<and> readout SummationMPNN_class self hidden_nodes input_nodes node_mask
     = (Inl NotImplementedError, self)"
  by (simp add: SummationMPNN_class_def SummationMPNN_message_terms_def
      SummationMPNN_update_def SummationMPNN_readout_def)







text \<open>
  Claim C8. After the mapping loop, whenever it runs to its end, the mask buffer has one
  row per node of the node batch, each as wide as the buffers; \<open>mask[i, j]\<close> is 1 exactly
  when \<open>j\<close> is below the degree of the \<open>i\<close>-th node of the batch (the number of its
  neighbours under the derived adjacency) and 0 otherwise; and every node of the batch
  has degree at least one.
\<close>

theorem neighbour_mask_invariant:
  assumes "neighbour_lists self nodes edges = Inr bufs"
    and "i < length (selected (sum_dim3 edges))"
    and "selected (sum_dim3 edges) ! i = (b, n)"
  shows "length (node_batch_node_nghb_mask bufs) = length (selected (sum_dim3 edges))
     \<and> length (node_batch_node_nghb_mask bufs ! i) = max_node_degree edges
     \<and> (\<forall>j < max_node_degree edges.
          node_batch_node_nghb_mask bufs ! i ! j =
            (if j < degree (sum_dim3 edges) b n then 1 else 0))
     \<and> 1 \<le> degree (sum_dim3 edges) b n
     \<and> degree (sum_dim3 edges) b n \<le> max_node_degree edges"
proof -
  note c = neighbour_lists_cells [OF assms]
  from selected_nth(3) [OF assms(2,3)] have "1 \<le> degree (sum_dim3 edges) b n"
    by (rule degree_positive)
  with c(3,6,7) c(10) show ?thesis by blast
qed

theorem neighbour_mask_invariant_witness:
  "neighbour_lists (init example_constants) example_nodes example_edges =
     Inr \<lparr> node_batch_node_nghbs = [[[3, 4], [5, 6]], [[1, 2], [0, 0]], [[1, 2], [0, 0]]],
           node_batch_edges = [[[1], [1]], [[1], [0]], [[1], [0]]],
           node_batch_node_nghb_mask = [[1, 1], [1, 0], [1, 0]] \<rparr>
   \<and> selected (sum_dim3 example_edges) ! 1 = (0, 1)
   \<and> degree (sum_dim3 example_edges) 0 1 = 1
   \<and> max_node_degree example_edges = 2"
proof -
  let ?bufs = "\<lparr> node_batch_node_nghbs = [[[3, 4], [5, 6]], [[1, 2], [0, 0]], [[1, 2], [0, 0]]],
           node_batch_edges = [[[1], [1]], [[1], [0]], [[1], [0]]],
           node_batch_node_nghb_mask = [[1, 1], [1, 0], [1, 0]] \<rparr>"
  have h1: "neighbour_lists (init example_constants) example_nodes example_edges = Inr ?bufs"
    by code_simp
  have h2: "1 < length (selected (sum_dim3 example_edges))" by code_simp
  have h3: "selected (sum_dim3 example_edges) ! 1 = (0, 1)" by code_simp
  from neighbour_mask_invariant [OF h1 h2 h3]
  have len: "length (node_batch_node_nghb_mask ?bufs ! 1) = max_node_degree example_edges"
    and cells: "\<forall>j < max_node_degree example_edges.
          node_batch_node_nghb_mask ?bufs ! 1 ! j =
            (if j < degree (sum_dim3 example_edges) 0 1 then 1 else 0)"
    and pos: "1 \<le> degree (sum_dim3 example_edges) 0 1"
    by blast+
  from len have w: "max_node_degree example_edges = 2" by simp
  then have "(1::nat) < max_node_degree example_edges" by simp
  from cells [rule_format, OF this]
  have "\<not> 1 < degree (sum_dim3 example_edges) 0 1" by (simp split: if_splits)
  with pos have "degree (sum_dim3 example_edges) 0 1 = 1" by simp
  with h1 h3 w show ?thesis by simp
qed

text \<open>
  Claim C10, as amended. The neighbour buffer has \<open>hidden_node_features\<close> columns and is
  filled with rows of the input node tensor. Whenever the copy runs, that is, some node
  has a nonzero adjacency row sum, and the node feature width is neither
  \<open>hidden_node_features\<close> nor 1, \<open>forward\<close> raises and produces no output, whatever the
  subclass.
\<close>

theorem feature_width_mismatch_raises:
  assumes "\<forall>g \<in> set nodes. \<forall>r \<in> set g. length r = f"
    and "f \<noteq> hidden_node_features self" and "f \<noteq> 1"
    and "selected (sum_dim3 edges) \<noteq> []"
  shows "forward cls self nodes edges = (Inl RuntimeError, self)
       \<or> forward cls self nodes edges = (Inl IndexError, self)"
  using neighbour_lists_width_mismatch [OF assms] by (auto simp: forward_def)

theorem feature_width_mismatch_raises_witness:
  "forward counting_class counting_instance wide_nodes pair_edges
     = (Inl RuntimeError, counting_instance)"
proof -
  have h1: "\<forall>g \<in> set wide_nodes. \<forall>r \<in> set g. length r = 3" by code_simp
  have h2: "(3::nat) \<noteq> hidden_node_features counting_instance" by code_simp
  have h3: "(3::nat) \<noteq> 1" by simp
  have h4: "selected (sum_dim3 pair_edges) \<noteq> []" by code_simp
  have n: "forward counting_class counting_instance wide_nodes pair_edges
     \<noteq> (Inl IndexError, counting_instance)" by code_simp
  from feature_width_mismatch_raises [OF h1 h2 h3 h4, of counting_class] n
  show ?thesis by blast
qed

text \<open>
  The claim as stated fails for a node feature width of 1, which the copy broadcasts
  over the \<open>hidden_node_features\<close> columns, and for a batch without edges, where the copy
  never runs: \<open>forward\<close> returns on both.
\<close>

theorem feature_width_mismatch_counterexample:
  "hidden_node_features counting_instance = 2
   \<and> neighbour_lists counting_instance narrow_nodes pair_edges
       = Inr \<lparr> node_batch_node_nghbs = [[[7, 7]], [[5, 5]]],
               node_batch_edges = [[[1]], [[1]]],
               node_batch_node_nghb_mask = [[1], [1]] \<rparr>
   \<and> forward counting_class counting_instance narrow_nodes pair_edges
       = (Inr ([[[53], [55]]], narrow_nodes, [[True, True]]), counting_instance\<lparr>calls := 5\<rparr>)
   \<and> forward counting_class counting_instance lone_node no_edges
       = (Inr (lone_node, lone_node, [[False]]), counting_instance\<lparr>calls := 5\<rparr>)"
  by code_simp









end
